theory Spec2Isabelle
  imports Complex_Main "HOL-Library.Multiset" "HOL-Library.Sublist"
begin

section \<open>The Tankerkoenig provider of MMM-Fuel (apis/tankerkoenig.js)\<close>

text \<open>
  The provider fetches station records from tankerkoenig.de, filters them, reshapes them for
  the user interface and returns them in two orders. This theory embeds the functions of
  \<^verbatim>\<open>apis/tankerkoenig.js\<close> one to one and proves what they compute.

  Conventions of the embedding:
  \<^item> a JavaScript number is a \<^typ>\<open>real\<close>: arithmetic and \<^verbatim>\<open>Math.*\<close> are the
    exact operations, rounding of doubles is not modelled;
  \<^item> the module variable \<^verbatim>\<open>config\<close> is an explicit parameter \<open>cfg\<close>;
  \<^item> a value that the code builds either as a number or as a string is a \<open>jsval\<close>;
  \<^item> a thrown exception is the \<open>Inl\<close> of a sum, and the network is an explicit
    parameter together with the log of the requests made so far;
  \<^item> \<^verbatim>\<open>Array.prototype.sort\<close> is the host's: it is a parameter \<open>hsort\<close> of \<^verbatim>\<open>getData\<close>.
\<close>

subsection \<open>Values and strings of the host language\<close>

datatype jsval = JUndefined | JNum real | JStr string

text \<open>Decimal rendering of a non-negative integer, as a template literal renders it.\<close>

definition digit :: "nat \<Rightarrow> char" where
  "digit d = ''0123456789'' ! d"

fun dec_string :: "nat \<Rightarrow> string" where
  "dec_string n = (if n < 10 then [digit n] else dec_string (n div 10) @ [digit (n mod 10)])"

declare dec_string.simps [simp del]

text \<open>
  \<^verbatim>\<open>s.slice(-k)\<close>: the start index is \<open>max (length s - k) 0\<close>, which the truncating
  subtraction of \<^typ>\<open>nat\<close> computes; the slice runs to the end of the string.
\<close>

definition slice_neg :: "nat \<Rightarrow> string \<Rightarrow> string" where
  "slice_neg k s = drop (length s - k) s"

text \<open>
  \<^verbatim>\<open>x.toFixed(1)\<close>: with \<open>n\<close> the integer nearest to \<open>10 * \<bar>x\<bar>\<close> (the larger one on
  a tie), the digits of \<open>n\<close> with a point before the last one, after a minus sign when
  \<open>x < 0\<close>. The result is a string. (Above \<open>10\<^sup>2\<^sup>1\<close> the host switches to exponent
  notation; no distance on the globe comes near.)
\<close>

definition toFixed1 :: "real \<Rightarrow> string" where
  "toFixed1 x =
     (let n = nat \<lfloor>\<bar>x\<bar> * 10 + 1 / 2\<rfloor>
      in (if x < 0 then ''-'' else '''') @ dec_string (n div 10) @ ''.'' @ dec_string (n mod 10))"

subsection \<open>Data model\<close>

text \<open>A coordinate pair \<^verbatim>\<open>{lat, lng}\<close> in degrees; stations and the configuration extend it.\<close>

record pos =
  lat :: real
  lng :: real

datatype fuel = Diesel | E5 | E10

text \<open>
  A station object. The first group of fields comes from the remote service;
  \<open>dist_js\<close> is the field \<^verbatim>\<open>dist\<close>, \<open>ident\<close> the field \<^verbatim>\<open>id\<close>. The postal code is a
  non-negative integer and the prices are numbers, 0 standing for a price that is not
  reported. The last three fields are the ones \<^verbatim>\<open>normalizeStations\<close> adds; they are absent
  before.
\<close>

record station = pos +
  ident :: string
  name :: string
  brand :: string
  street :: string
  houseNumber :: string
  postCode :: nat
  place :: string
  isOpen :: bool
  diesel :: real
  e5 :: real
  e10 :: real
  dist_js :: jsval
  prices :: "(fuel \<times> real) list option"
  distance :: jsval
  address :: "string option"

text \<open>
  The object \<^verbatim>\<open>getData\<close> returns. It is declared before the configuration, whose
  field \<open>types\<close> (the required fuel types) is the one the unqualified name means below.
\<close>

record result =
  types :: "string list"
  unit :: string
  currency :: string
  byPrice :: "station list"
  byDistance :: "station list"

text \<open>
  The options object held in the module variable \<^verbatim>\<open>config\<close>. \<open>sortBy\<close> and the
  entries of \<open>types\<close> are fuel-type keys; \<open>onlyStations\<close> are station identifiers.
\<close>

record config = pos +
  radius :: real
  api_key :: string
  sortBy :: fuel
  types :: "fuel list"
  showOpenOnly :: bool
  onlyStations :: "string list"

text \<open>
  What \<^verbatim>\<open>response.json()\<close> yields: the flag \<^verbatim>\<open>ok\<close>, and the keys \<^verbatim>\<open>stations\<close>
  (list endpoint) and \<^verbatim>\<open>station\<close> (detail endpoint), either of which may be missing.
\<close>

record response =
  ok :: bool
  stations :: "station list option"
  station :: "station option"

text \<open>
  Thrown values: \<^verbatim>\<open>new Error(msg)\<close> of the module itself, the host's \<^verbatim>\<open>TypeError\<close> on
  reading a property of \<^verbatim>\<open>undefined\<close>, and a rejection of \<^verbatim>\<open>fetch\<close> or
  \<^verbatim>\<open>response.json()\<close>.
\<close>

datatype error = Error string | TypeError | FetchError

text \<open>
  The network: the outcome of a request is a function of all URLs requested so far, the
  current one last. \<open>fetch\<close> performs a request and appends its URL to the log.
\<close>

type_synonym network = "string list \<Rightarrow> error + response"

definition fetch :: "network \<Rightarrow> string list \<Rightarrow> string \<Rightarrow> (error + response) \<times> string list" where
  "fetch net reqs url = (net (reqs @ [url]), reqs @ [url])"

text \<open>\<^verbatim>\<open>station[key]\<close> for a fuel-type key.\<close>

fun get_price :: "station \<Rightarrow> fuel \<Rightarrow> real" where
  "get_price s Diesel = diesel s"
| "get_price s E5 = e5 s"
| "get_price s E10 = e10 s"

subsection \<open>URLs (lines 22--46)\<close>

definition earth :: real where
  "earth = 6371000"

definition BASE_URL :: string where
  "BASE_URL = ''https://creativecommons.tankerkoenig.de/json/list.php''"

definition BASE_URL_DETAIL :: string where
  "BASE_URL_DETAIL = ''https://creativecommons.tankerkoenig.de/json/detail.php''"

text \<open>
  \<open>num2str\<close> is the host's rendering of a number inside a template literal; the shortest
  decimal that reads back as the same double is not a function of the real number alone,
  so it is a parameter.
\<close>

definition generateUrl :: "(real \<Rightarrow> string) \<Rightarrow> config \<Rightarrow> string" where
  "generateUrl num2str cfg =
     BASE_URL @ ''?lat='' @ num2str (lat cfg) @ ''&lng='' @ num2str (lng cfg) @
     ''&rad='' @ num2str (radius cfg) @ ''&type=all&apikey='' @ api_key cfg @ ''&sort=dist''"

definition generateUrlDetail :: "config \<Rightarrow> string \<Rightarrow> string" where
  "generateUrlDetail cfg i = BASE_URL_DETAIL @ ''?id='' @ i @ ''&apikey='' @ api_key cfg"

subsection \<open>sortByPrice (lines 57--65)\<close>

definition MIN_SAFE_INTEGER :: real where
  "MIN_SAFE_INTEGER = - (2 ^ 53 - 1)"

definition MAX_SAFE_INTEGER :: real where
  "MAX_SAFE_INTEGER = 2 ^ 53 - 1"

definition sortByPrice :: "config \<Rightarrow> station \<Rightarrow> station \<Rightarrow> real" where
  "sortByPrice cfg a b =
     (if get_price b (sortBy cfg) = 0 then MIN_SAFE_INTEGER
      else if get_price a (sortBy cfg) = 0 then MAX_SAFE_INTEGER
      else get_price a (sortBy cfg) - get_price b (sortBy cfg))"

subsection \<open>filterStations (lines 75--83) and checkStation (lines 126--134)\<close>

text \<open>The \<^verbatim>\<open>for\<close> loop from index \<open>i\<close> on; \<^verbatim>\<open>return true\<close> once the index leaves the list.\<close>

function filterStations_from :: "config \<Rightarrow> station \<Rightarrow> nat \<Rightarrow> bool" where
  "filterStations_from cfg st i =
     (if i < length (types cfg) then
        (if get_price st (types cfg ! i) \<le> 0 \<or> (showOpenOnly cfg \<and> \<not> isOpen st)
         then False
         else filterStations_from cfg st (i + 1))
      else True)"
  by pat_completeness auto
termination
  by (relation "measure (\<lambda>(cfg, st, i). length (types cfg) - i)") auto

declare filterStations_from.simps [simp del]

definition filterStations :: "config \<Rightarrow> station \<Rightarrow> bool" where
  "filterStations cfg st = filterStations_from cfg st 0"

function checkStation_from :: "config \<Rightarrow> station \<Rightarrow> nat \<Rightarrow> bool" where
  "checkStation_from cfg st i =
     (if i < length (types cfg) then
        (if get_price st (types cfg ! i) \<le> 0 \<or> (showOpenOnly cfg \<and> \<not> isOpen st)
         then False
         else checkStation_from cfg st (i + 1))
      else True)"
  by pat_completeness auto
termination
  by (relation "measure (\<lambda>(cfg, st, i). length (types cfg) - i)") auto

declare checkStation_from.simps [simp del]

definition checkStation :: "config \<Rightarrow> station \<Rightarrow> bool" where
  "checkStation cfg st = checkStation_from cfg st 0"

text \<open>
  The Station Filter as the specification words it: a station is dropped when some required
  type has a price of at most zero, or when only open stations are wanted and it is closed.
\<close>

definition keep_spec :: "config \<Rightarrow> station \<Rightarrow> bool" where
  "keep_spec cfg st =
     (\<not> (list_ex (\<lambda>t. get_price st t \<le> 0) (types cfg) \<or>
          (showOpenOnly cfg \<and> \<not> isOpen st)))"

subsection \<open>deg2rad (lines 92--96) and getDistance (lines 106--116)\<close>

definition deg2rad :: "real \<Rightarrow> real" where
  "deg2rad degrees = degrees * (pi / 180)"

text \<open>\<^verbatim>\<open>Math.atan2(y, x)\<close>: the angle of the point \<open>(x, y)\<close>, in \<open>(-\<pi>, \<pi>]\<close>.\<close>

definition atan2 :: "real \<Rightarrow> real \<Rightarrow> real" where
  "atan2 y x =
     (if 0 < x then arctan (y / x)
      else if x < 0 then (if 0 \<le> y then arctan (y / x) + pi else arctan (y / x) - pi)
      else if 0 < y then pi / 2
      else if y < 0 then - (pi / 2)
      else 0)"

text \<open>
  The local constant \<^verbatim>\<open>distance\<close> of the source is \<open>a\<close> here. \<^verbatim>\<open>Math.sqrt\<close> is applied to
  \<open>a\<close> and \<open>1 - a\<close>, both of which lie between 0 and 1 in exact arithmetic for latitudes
  between -90 and 90. This definition is the exact computation. Doubles round: for two
  points that are nearly antipodal the computed \<open>a\<close> can come out one unit in the last place
  above 1, and \<^verbatim>\<open>Math.sqrt(1 - distance)\<close> is then \<^verbatim>\<open>NaN\<close>; no fact below speaks about
  such a run. For equal coordinates every step is exact in doubles too.
\<close>

definition getDistance :: "'a pos_scheme \<Rightarrow> 'b pos_scheme \<Rightarrow> real" where
  "getDistance pos1 pos2 =
     (let dLat = deg2rad (lat pos2 - lat pos1);
          dLon = deg2rad (lng pos2 - lng pos1);
          a = sin (dLat / 2) * sin (dLat / 2) +
              cos (deg2rad (lat pos1)) * cos (deg2rad (lat pos2)) *
              sin (dLon / 2) * sin (dLon / 2);
          c = 2 * atan2 (sqrt a) (sqrt (1 - a))
      in earth * c / 1000)"

text \<open>
  The haversine formula as the specification names it, in exact arithmetic: with \<open>hav \<theta> = sin\<^sup>2 (\<theta> / 2)\<close>, the
  distance on a sphere of radius 6371000 m between two points given in degrees is
  \<open>2 R arcsin (sqrt (hav \<Delta>\<phi> + cos \<phi>\<^sub>1 cos \<phi>\<^sub>2 hav \<Delta>\<lambda>))\<close>, here in kilometres.
\<close>

definition hav :: "real \<Rightarrow> real" where
  "hav \<theta> = (sin (\<theta> / 2))\<^sup>2"

definition haversine_km :: "'a pos_scheme \<Rightarrow> 'b pos_scheme \<Rightarrow> real" where
  "haversine_km p q =
     (let phi1 = lat p * pi / 180; phi2 = lat q * pi / 180;
          lam1 = lng p * pi / 180; lam2 = lng q * pi / 180
      in 2 * 6371000 *
         arcsin (sqrt (hav (phi2 - phi1) + cos phi1 * cos phi2 * hav (lam2 - lam1))) / 1000)"

subsection \<open>normalizeStations (lines 148--159)\<close>

definition normalizeStations :: "station \<Rightarrow> station" where
  "normalizeStations value =
     value\<lparr> prices := Some [(Diesel, diesel value), (E5, e5 value), (E10, e10 value)],
            distance := dist_js value,
            address := Some (slice_neg 5 (''0'' @ dec_string (postCode value)) @ '' '' @
                             place value @ '' - '' @ street value @ '' '' @ houseNumber value) \<rparr>"

text \<open>The reading of "zero-padded to five digits": leading zeros up to a width of five.\<close>

definition zero_pad5 :: "nat \<Rightarrow> string" where
  "zero_pad5 n = replicate (5 - length (dec_string n)) (CHR ''0'') @ dec_string n"

subsection \<open>Arrays of the host\<close>

text \<open>
  \<^verbatim>\<open>Array.prototype.sort\<close> with a comparison function belongs to the host, and the order
  it produces when the comparison function is not consistent differs between engines. The
  pipeline therefore takes the host's sort as a parameter \<open>hsort\<close>. \<open>insertion_sort\<close> is one
  such sort (stable, reading only the sign of \<open>cmp a b\<close>), used where a run is evaluated on
  concrete stations.
\<close>

type_synonym host_sort = "(station \<Rightarrow> station \<Rightarrow> real) \<Rightarrow> station list \<Rightarrow> station list"

fun insert_by :: "('a \<Rightarrow> 'a \<Rightarrow> real) \<Rightarrow> 'a \<Rightarrow> 'a list \<Rightarrow> 'a list" where
  "insert_by cmp x [] = [x]"
| "insert_by cmp x (y # ys) = (if cmp x y \<le> 0 then x # y # ys else y # insert_by cmp x ys)"

fun insertion_sort :: "('a \<Rightarrow> 'a \<Rightarrow> real) \<Rightarrow> 'a list \<Rightarrow> 'a list" where
  "insertion_sort cmp [] = []"
| "insertion_sort cmp (x # xs) = insert_by cmp x (insertion_sort cmp xs)"

text \<open>
  Arrays are mutable and shared by reference, so they live in a store: \<open>cells\<close> maps an
  address to the array's elements, \<open>fresh\<close> is the next unused address.
\<close>

record heap =
  cells :: "nat \<Rightarrow> station list"
  fresh :: nat

definition empty_heap :: heap where
  "empty_heap = \<lparr>cells = (\<lambda>_. []), fresh = 0\<rparr>"

definition new_array :: "station list \<Rightarrow> heap \<Rightarrow> nat \<times> heap" where
  "new_array xs h = (fresh h, h\<lparr>cells := (cells h)(fresh h := xs), fresh := Suc (fresh h)\<rparr>)"

text \<open>\<^verbatim>\<open>arr.forEach(f)\<close> for an \<open>f\<close> that rewrites the element it is given in place.\<close>

definition forEach :: "(station \<Rightarrow> station) \<Rightarrow> nat \<Rightarrow> heap \<Rightarrow> heap" where
  "forEach f arr h = h\<lparr>cells := (cells h)(arr := map f (cells h arr))\<rparr>"

text \<open>\<^verbatim>\<open>arr.slice(0)\<close>: a new array with the same elements.\<close>

definition slice0 :: "nat \<Rightarrow> heap \<Rightarrow> nat \<times> heap" where
  "slice0 arr h = new_array (cells h arr) h"

text \<open>\<^verbatim>\<open>arr.sort(cmp)\<close>: the host's sort rewrites the array at \<open>arr\<close> in place.\<close>

definition sort_in_place ::
    "host_sort \<Rightarrow> (station \<Rightarrow> station \<Rightarrow> real) \<Rightarrow> nat \<Rightarrow> heap \<Rightarrow> heap" where
  "sort_in_place hsort cmp arr h = h\<lparr>cells := (cells h)(arr := hsort cmp (cells h arr))\<rparr>"

subsection \<open>getData (lines 170--215)\<close>

text \<open>
  Area mode (lines 174--181): one request, the error of line 178 when \<^verbatim>\<open>ok\<close> is not
  true, then the filter over \<^verbatim>\<open>parsedResponse.stations\<close>. Each part returns its outcome
  together with the log of the requests made.
\<close>

definition getData_area ::
    "(real \<Rightarrow> string) \<Rightarrow> network \<Rightarrow> config \<Rightarrow> (error + station list) \<times> string list" where
  "getData_area num2str net cfg =
     (case fetch net [] (generateUrl num2str cfg) of
        (Inl e, reqs) \<Rightarrow> (Inl e, reqs)
      | (Inr parsedResponse, reqs) \<Rightarrow>
          if \<not> ok parsedResponse then (Inl (Error ''Error no fuel data''), reqs)
          else (case stations parsedResponse of
                  None \<Rightarrow> (Inl TypeError, reqs)
                | Some sts \<Rightarrow> (Inr (filter (filterStations cfg) sts), reqs)))"

text \<open>
  Line 197: the field \<^verbatim>\<open>dist\<close> of a retained station becomes
  \<^verbatim>\<open>getDistance(station, {"lat": config.lat, "lng": config.lng}).toFixed(1)\<close>.
\<close>

definition set_dist :: "config \<Rightarrow> station \<Rightarrow> station" where
  "set_dist cfg st =
     st\<lparr>dist_js := JStr (toFixed1 (getDistance st \<lparr>lat = lat cfg, lng = lng cfg\<rparr>))\<rparr>"

text \<open>
  Detail mode (lines 187--200): the \<^verbatim>\<open>for\<close> loop from index \<open>i\<close> on, with the array
  \<^verbatim>\<open>stations\<close> built so far in \<open>acc\<close>: one request per identifier, the error of line 192
  when \<^verbatim>\<open>ok\<close> is not true, and a push of the station when \<^verbatim>\<open>checkStation\<close> keeps it.
\<close>

function getData_detail ::
    "network \<Rightarrow> config \<Rightarrow> nat \<Rightarrow> station list \<Rightarrow> string list \<Rightarrow> (error + station list) \<times> string list" where
  "getData_detail net cfg i acc reqs =
     (if i < length (onlyStations cfg) then
        (case fetch net reqs (generateUrlDetail cfg (onlyStations cfg ! i)) of
           (Inl e, reqs') \<Rightarrow> (Inl e, reqs')
         | (Inr parsedResponse, reqs') \<Rightarrow>
             if \<not> ok parsedResponse
             then (Inl (Error ''Error no fuel data or station id not found''), reqs')
             else (case station parsedResponse of
                     None \<Rightarrow> (Inl TypeError, reqs')
                   | Some st \<Rightarrow>
                       if checkStation cfg st
                       then getData_detail net cfg (i + 1) (acc @ [set_dist cfg st]) reqs'
                       else getData_detail net cfg (i + 1) acc reqs'))
      else (Inr acc, reqs))"
  by pat_completeness auto
termination
  by (relation "measure (\<lambda>(net, cfg, i, acc, reqs). length (onlyStations cfg) - i)") auto

declare getData_detail.simps [simp del]

text \<open>The choice of the mode (line 173) and the list of retained stations it yields.\<close>

definition getData_stations ::
    "(real \<Rightarrow> string) \<Rightarrow> network \<Rightarrow> config \<Rightarrow> (error + station list) \<times> string list" where
  "getData_stations num2str net cfg =
     (if length (onlyStations cfg) < 1 then getData_area num2str net cfg
      else getData_detail net cfg 0 [] [])"

text \<open>
  Lines 203--214: \<open>stations_arr\<close> is the array \<^verbatim>\<open>stations\<close>, normalised in place;
  \<open>price\<close> is its copy, sorted in place; the result holds both arrays.
\<close>

definition getData_result :: "host_sort \<Rightarrow> config \<Rightarrow> station list \<Rightarrow> result" where
  "getData_result hsort cfg sts =
     (let (stations_arr, h0) = new_array sts empty_heap;
          h1 = forEach normalizeStations stations_arr h0;
          (price, h2) = slice0 stations_arr h1;
          h3 = sort_in_place hsort (sortByPrice cfg) price h2
      in \<lparr>result.types = [''diesel'', ''e5'', ''e10''], unit = ''km'', currency = ''EUR'',
          byPrice = cells h3 price, byDistance = cells h3 stations_arr\<rparr>)"

definition getData ::
    "(real \<Rightarrow> string) \<Rightarrow> host_sort \<Rightarrow> network \<Rightarrow> config \<Rightarrow> (error + result) \<times> string list" where
  "getData num2str hsort net cfg =
     (case getData_stations num2str net cfg of
        (Inl e, reqs) \<Rightarrow> (Inl e, reqs)
      | (Inr sts, reqs) \<Rightarrow> (Inr (getData_result hsort cfg sts), reqs))"

subsection \<open>Concrete inputs\<close>

text \<open>
  Stations, configurations and networks on which the functions above are evaluated below.
  \<open>station_foo\<close> is closed and lies at the origin; \<open>station_zero\<close> reports no diesel price.
  The configurations have their origin there too.
\<close>

definition station_foo :: station where
  "station_foo =
     \<lparr>lat = 0, lng = 0, ident = ''id-foo'', name = ''Foo Fuel'', brand = ''FF'',
      street = ''Bar'', houseNumber = ''4'', postCode = 123, place = ''Foo'', isOpen = False,
      diesel = 3 / 2, e5 = 8 / 5, e10 = 31 / 20, dist_js = JUndefined, prices = None,
      distance = JUndefined, address = None\<rparr>"

definition station_dresden :: station where
  "station_dresden = station_foo\<lparr>postCode := 1067, place := ''Dresden''\<rparr>"

definition station_a :: station where
  "station_a = station_foo\<lparr>ident := ''id-a'', postCode := 10178, isOpen := True\<rparr>"

definition station_b :: station where
  "station_b = station_a\<lparr>ident := ''id-b'', diesel := 6 / 5\<rparr>"

definition station_zero :: station where
  "station_zero = station_a\<lparr>ident := ''id-zero'', diesel := 0\<rparr>"

definition station_closed_zero :: station where
  "station_closed_zero = station_zero\<lparr>ident := ''id-closed'', isOpen := False\<rparr>"

definition config_diesel :: config where
  "config_diesel =
     \<lparr>lat = 0, lng = 0, radius = 5, api_key = ''key'', sortBy = Diesel, types = [Diesel],
      showOpenOnly = False, onlyStations = []\<rparr>"

definition config_no_types :: config where
  "config_no_types = config_diesel\<lparr>types := [], showOpenOnly := True\<rparr>"

definition config_detail :: config where
  "config_detail = config_diesel\<lparr>onlyStations := [''id-a'', ''id-b'']\<rparr>"

text \<open>
  \<open>net_area\<close> answers every request with three stations; \<open>net_detail\<close> answers the first
  request with \<open>station_a\<close> and any later one with \<open>station_b\<close>; \<open>net_fail\<close> answers the
  first request like \<open>net_detail\<close> and any later one with \<^verbatim>\<open>ok: false\<close>.
\<close>

definition net_area :: network where
  "net_area reqs =
     Inr \<lparr>ok = True, stations = Some [station_a, station_zero, station_b], station = None\<rparr>"

definition net_detail :: network where
  "net_detail reqs =
     (if length reqs = 1 then Inr \<lparr>ok = True, stations = None, station = Some station_a\<rparr>
      else Inr \<lparr>ok = True, stations = None, station = Some station_b\<rparr>)"

definition net_fail :: network where
  "net_fail reqs =
     (if length reqs = 1 then Inr \<lparr>ok = True, stations = None, station = Some station_a\<rparr>
      else Inr \<lparr>ok = False, stations = None, station = None\<rparr>)"

definition show_zero :: "real \<Rightarrow> string" where
  "show_zero x = ''0''"

section \<open>Auxiliary facts\<close>

lemmas example_defs =
  station_foo_def station_dresden_def station_a_def station_b_def station_zero_def
  station_closed_zero_def config_diesel_def config_no_types_def config_detail_def net_area_def net_detail_def
  net_fail_def

subsection \<open>Decimal strings\<close>

lemma length_dec_string_pos: "0 < length (dec_string n)"
  by (subst dec_string.simps) simp

lemma length_dec_string_le: "length (dec_string n) \<le> Suc k \<longleftrightarrow> n < 10 ^ Suc k"
proof (induction k arbitrary: n)
  case 0
  show ?case using length_dec_string_pos [of "n div 10"]
    by (subst dec_string.simps) simp
next
  case (Suc k)
  show ?case
  proof (cases "n < 10")
    case True
    have "(10::nat) ^ 1 \<le> 10 ^ Suc (Suc k)"
      by (rule power_increasing) simp_all
    then have "(10::nat) \<le> 10 ^ Suc (Suc k)"
      by (simp only: power_one_right)
    with True have "n < 10 ^ Suc (Suc k)"
      by (rule less_le_trans)
    with True show ?thesis by (subst dec_string.simps) simp
  next
    case False
    have "length (dec_string n) = Suc (length (dec_string (n div 10)))"
      using False by (subst dec_string.simps) simp
    moreover have "n div 10 < 10 ^ Suc k \<longleftrightarrow> n < 10 ^ Suc (Suc k)"
      by (simp add: less_mult_imp_div_less div_less_iff_less_mult mult.commute)
    ultimately show ?thesis using Suc.IH [of "n div 10"] by simp
  qed
qed

text \<open>
  One leading zero and the last five characters give the five-digit form exactly for the
  numbers with four or five digits.
\<close>

lemma slice_pad_iff:
  "slice_neg 5 (''0'' @ dec_string n) = zero_pad5 n \<longleftrightarrow> 1000 \<le> n \<and> n \<le> 99999"
proof -
  let ?d = "dec_string n"
  have le5: "length ?d \<le> 5 \<longleftrightarrow> n < 100000"
    using length_dec_string_le [of n 4] by simp
  have le3: "length ?d \<le> 3 \<longleftrightarrow> n < 1000"
    using length_dec_string_le [of n 2] by simp
  show ?thesis
  proof (cases "4 \<le> length ?d \<and> length ?d \<le> 5")
    case True
    then consider "length ?d = 4" | "length ?d = 5" by linarith
    then have "slice_neg 5 (''0'' @ ?d) = zero_pad5 n"
      by cases (simp_all add: slice_neg_def zero_pad5_def)
    moreover have "1000 \<le> n \<and> n \<le> 99999" using True le5 le3 by linarith
    ultimately show ?thesis by simp
  next
    case False
    then have "length (slice_neg 5 (''0'' @ ?d)) \<noteq> length (zero_pad5 n)"
      by (auto simp: slice_neg_def zero_pad5_def)
    then have "slice_neg 5 (''0'' @ ?d) \<noteq> zero_pad5 n" by metis
    moreover have "\<not> (1000 \<le> n \<and> n \<le> 99999)" using False le5 le3 by linarith
    ultimately show ?thesis by simp
  qed
qed

subsection \<open>The two filters\<close>

lemma filterStations_from_iff:
  "filterStations_from cfg st i \<longleftrightarrow>
     (i < length (types cfg) \<longrightarrow>
        (\<forall>t \<in> set (drop i (types cfg)). 0 < get_price st t) \<and>
        \<not> (showOpenOnly cfg \<and> \<not> isOpen st))"
proof (induction cfg st i rule: filterStations_from.induct)
  case (1 cfg st i)
  show ?case
  proof (cases "i < length (types cfg)")
    case False
    then show ?thesis by (subst filterStations_from.simps) simp
  next
    case True
    then have d: "drop i (types cfg) = types cfg ! i # drop (Suc i) (types cfg)"
      by (simp add: Cons_nth_drop_Suc)
    show ?thesis
    proof (cases "get_price st (types cfg ! i) \<le> 0 \<or> (showOpenOnly cfg \<and> \<not> isOpen st)")
      case bad: True
      then show ?thesis using True d
        by (subst filterStations_from.simps) auto
    next
      case good: False
      have "filterStations_from cfg st i = filterStations_from cfg st (i + 1)"
        using True good by (subst filterStations_from.simps) auto
      also have "\<dots> \<longleftrightarrow> (i + 1 < length (types cfg) \<longrightarrow>
          (\<forall>t \<in> set (drop (i + 1) (types cfg)). 0 < get_price st t) \<and>
          \<not> (showOpenOnly cfg \<and> \<not> isOpen st))"
        using "1.IH" [OF True good] .
      finally show ?thesis using True good d by (auto simp: not_le)
    qed
  qed
qed

lemma checkStation_from_eq: "checkStation_from cfg st i = filterStations_from cfg st i"
proof (induction cfg st i rule: filterStations_from.induct)
  case (1 cfg st i)
  then show ?case
    by (subst checkStation_from.simps, subst filterStations_from.simps) auto
qed

text \<open>
  What the loop computes: the station is kept when no type is required, and otherwise
  exactly when the specification's predicate keeps it.
\<close>

lemma filterStations_iff:
  "filterStations cfg st \<longleftrightarrow> (types cfg = [] \<or> keep_spec cfg st)"
  unfolding filterStations_def keep_spec_def
  by (subst filterStations_from_iff) (auto simp: list_ex_iff not_le)

subsection \<open>Distance\<close>

lemma atan2_sqrt_arcsin:
  assumes "0 \<le> a" "a \<le> 1"
  shows "atan2 (sqrt a) (sqrt (1 - a)) = arcsin (sqrt a)"
proof (cases "a = 1")
  case True
  then show ?thesis by (simp add: atan2_def)
next
  case False
  with assms have lt: "a < 1" by simp
  then have pos: "0 < sqrt (1 - a)" by simp
  have x: "- 1 < sqrt a" "sqrt a < 1"
    using assms lt by (auto intro: less_le_trans [of _ 0])
  have "(sqrt a)\<^sup>2 = a" using assms by simp
  then have "arcsin (sqrt a) = arctan (sqrt a / sqrt (1 - a))"
    using arcsin_arctan [OF x] by simp
  then show ?thesis using pos by (simp add: atan2_def)
qed

lemma hav_sum_bounds:
  fixes x y d :: real
  assumes c1: "0 \<le> cos x" and c2: "0 \<le> cos y"
  shows "0 \<le> (sin ((y - x) / 2))\<^sup>2 + cos x * cos y * (sin (d / 2))\<^sup>2"
    and "(sin ((y - x) / 2))\<^sup>2 + cos x * cos y * (sin (d / 2))\<^sup>2 \<le> 1"
proof -
  have cc: "0 \<le> cos x * cos y" using c1 c2 by simp
  then show "0 \<le> (sin ((y - x) / 2))\<^sup>2 + cos x * cos y * (sin (d / 2))\<^sup>2"
    by simp
  have s1: "(sin (d / 2))\<^sup>2 \<le> 1"
    by (simp add: abs_square_le_1)
  have "cos x * cos y * (sin (d / 2))\<^sup>2 \<le> cos x * cos y * 1"
    using cc s1 by (rule mult_left_mono [rotated])
  then have le: "cos x * cos y * (sin (d / 2))\<^sup>2 \<le> cos x * cos y" by simp
  have "2 * ((y - x) / 2) = y - x" by simp
  then have "cos (y - x) = 1 - 2 * (sin ((y - x) / 2))\<^sup>2"
    using cos_double_sin [of "(y - x) / 2"] by (simp only:)
  then have h: "(sin ((y - x) / 2))\<^sup>2 = (1 - cos (y - x)) / 2" by simp
  have "(sin ((y - x) / 2))\<^sup>2 + cos x * cos y = (1 + cos (x + y)) / 2"
    unfolding h by (simp add: cos_diff cos_add field_simps)
  also have "\<dots> \<le> 1" using cos_le_one [of "x + y"] by simp
  finally show "(sin ((y - x) / 2))\<^sup>2 + cos x * cos y * (sin (d / 2))\<^sup>2 \<le> 1"
    using le by simp
qed

lemma cos_deg_nonneg: "- 90 \<le> d \<Longrightarrow> d \<le> 90 \<Longrightarrow> 0 \<le> cos (d * pi / 180)"
proof (rule cos_ge_zero)
  assume "- 90 \<le> d" "d \<le> 90"
  show "- (pi / 2) \<le> d * pi / 180"
    using \<open>- 90 \<le> d\<close> mult_right_mono [of "- 90" d pi] by simp
  show "d * pi / 180 \<le> pi / 2"
    using \<open>d \<le> 90\<close> mult_right_mono [of d 90 pi] by simp
qed

text \<open>The distance between equal coordinates is 0, in particular from a point to itself.\<close>

lemma getDistance_same: "lat p = lat q \<Longrightarrow> lng p = lng q \<Longrightarrow> getDistance p q = 0"
  by (simp add: getDistance_def deg2rad_def atan2_def)

text \<open>
  In exact arithmetic the \<^verbatim>\<open>atan2\<close> form of the code is the haversine formula. (A run in
  doubles can leave this: see the remark at \<open>getDistance\<close>.)
\<close>

lemma getDistance_eq_haversine:
  assumes "- 90 \<le> lat p" "lat p \<le> 90" "- 90 \<le> lat q" "lat q \<le> 90"
  shows "getDistance p q = haversine_km p q"
proof -
  define x where "x = lat p * pi / 180"
  define y where "y = lat q * pi / 180"
  define d where "d = lng q * pi / 180 - lng p * pi / 180"
  define a where "a = (sin ((y - x) / 2))\<^sup>2 + cos x * cos y * (sin (d / 2))\<^sup>2"
  have cx: "0 \<le> cos x" and cy: "0 \<le> cos y"
    unfolding x_def y_def using assms by (simp_all add: cos_deg_nonneg)
  have a: "0 \<le> a" "a \<le> 1"
    unfolding a_def using hav_sum_bounds [OF cx cy] by simp_all
  have dl: "deg2rad (lat q - lat p) = y - x" "deg2rad (lng q - lng p) = d"
    "deg2rad (lat p) = x" "deg2rad (lat q) = y"
    by (simp_all add: deg2rad_def x_def y_def d_def left_diff_distrib)
  have g: "getDistance p q = earth * (2 * atan2 (sqrt a) (sqrt (1 - a))) / 1000"
    unfolding getDistance_def Let_def dl a_def by (simp add: power2_eq_square mult.assoc)
  have h: "haversine_km p q = 2 * 6371000 * arcsin (sqrt a) / 1000"
    unfolding haversine_km_def Let_def hav_def a_def x_def y_def d_def by simp
  show ?thesis
    unfolding g h atan2_sqrt_arcsin [OF a] earth_def by simp
qed

subsection \<open>Arrays and the result object\<close>

lemma mset_insert_by: "mset (insert_by cmp x xs) = add_mset x (mset xs)"
  by (induction xs) simp_all

lemma mset_insertion_sort: "mset (insertion_sort cmp xs) = mset xs"
  by (induction xs) (simp_all add: mset_insert_by)

text \<open>Sorting one array leaves every other array of the store as it was, whatever the sort.\<close>

lemma sort_in_place_other:
  "a \<noteq> b \<Longrightarrow> cells (sort_in_place hsort cmp a h) b = cells h b"
  by (simp add: sort_in_place_def)

lemma slice0_fresh:
  assumes "slice0 a h = (b, h')" and "a < fresh h"
  shows "b \<noteq> a \<and> cells h' a = cells h a \<and> cells h' b = cells h a"
  using assms by (auto simp: slice0_def new_array_def)

lemma byDistance_getData_result:
  "byDistance (getData_result hsort cfg sts) = map normalizeStations sts"
  by (simp add: getData_result_def new_array_def empty_heap_def forEach_def slice0_def
      sort_in_place_def)

lemma byPrice_getData_result:
  "byPrice (getData_result hsort cfg sts) = hsort (sortByPrice cfg) (map normalizeStations sts)"
  by (simp add: getData_result_def new_array_def empty_heap_def forEach_def slice0_def
      sort_in_place_def)

lemma getData_Inr:
  "getData num2str hsort net cfg = (Inr res, reqs) \<longleftrightarrow>
     (\<exists>sts. getData_stations num2str net cfg = (Inr sts, reqs) \<and>
            res = getData_result hsort cfg sts)"
  by (auto simp: getData_def split: prod.splits sum.splits)

lemma getData_map_sum:
  assumes "getData num2str hsort net cfg = (out, reqs)"
  obtains out' where "getData_stations num2str net cfg = (out', reqs)"
    and "out = map_sum id (getData_result hsort cfg) out'"
  using assms by (auto simp: getData_def split: prod.splits sum.splits)

subsection \<open>The request loop of detail mode\<close>

lemma getData_detail_done:
  "\<not> i < length (onlyStations cfg) \<Longrightarrow> getData_detail net cfg i acc reqs = (Inr acc, reqs)"
  by (subst getData_detail.simps) simp

lemma getData_detail_step:
  "i < length (onlyStations cfg) \<Longrightarrow>
   getData_detail net cfg i acc reqs =
     (let reqs' = reqs @ [generateUrlDetail cfg (onlyStations cfg ! i)] in
      case net reqs' of
        Inl e \<Rightarrow> (Inl e, reqs')
      | Inr r \<Rightarrow>
          if \<not> ok r then (Inl (Error ''Error no fuel data or station id not found''), reqs')
          else (case station r of
                  None \<Rightarrow> (Inl TypeError, reqs')
                | Some st \<Rightarrow>
                    getData_detail net cfg (Suc i)
                      (if checkStation cfg st then acc @ [set_dist cfg st] else acc) reqs'))"
  by (subst getData_detail.simps) (simp add: fetch_def Let_def split: sum.splits option.splits)

text \<open>
  As long as every answer so far was \<^verbatim>\<open>ok\<close>, an answer that is not \<^verbatim>\<open>ok\<close> is the last one
  of the run, and the run ends with the error of line 192.
\<close>

lemma detail_not_ok:
  assumes "getData_detail net cfg i acc reqs0 = (out, reqs)"
    and "\<forall>j < length reqs0. \<forall>r. net (take (Suc j) reqs0) = Inr r \<longrightarrow> ok r"
    and "k < length reqs" and "net (take (Suc k) reqs) = Inr r" and "\<not> ok r"
  shows "out = Inl (Error ''Error no fuel data or station id not found'') \<and> length reqs = Suc k"
  using assms
proof (induction n \<equiv> "length (onlyStations cfg) - i" arbitrary: i acc reqs0)
  case 0
  then have "\<not> i < length (onlyStations cfg)" by simp
  with "0.prems"(1) have "reqs = reqs0" by (simp add: getData_detail_done)
  with "0.prems" show ?case by blast
next
  case (Suc n)
  then have i: "i < length (onlyStations cfg)" by simp
  define reqs' where "reqs' = reqs0 @ [generateUrlDetail cfg (onlyStations cfg ! i)]"
  have old: "take (Suc j) reqs' = take (Suc j) reqs0" if "j < length reqs0" for j
    using that by (simp add: reqs'_def)
  have new: "take (Suc (length reqs0)) reqs' = reqs'"
    by (simp add: reqs'_def)
  have len: "length reqs' = Suc (length reqs0)"
    by (simp add: reqs'_def)
  note step = getData_detail_step [OF i, of net acc reqs0, folded reqs'_def, unfolded Let_def]
  have stop: ?case
    if "reqs = reqs'"
      and "\<And>p. net reqs' = Inr p \<Longrightarrow> \<not> ok p \<Longrightarrow>
             out = Inl (Error ''Error no fuel data or station id not found'')"
  proof (cases "k < length reqs0")
    case True
    with Suc.prems(2,4,5) old [OF True] that(1) show ?thesis by auto
  next
    case False
    with Suc.prems(3) that(1) len have k: "k = length reqs0" by simp
    with Suc.prems(4) that(1) new have "net reqs' = Inr r" by simp
    with that(2) Suc.prems(5) k that(1) len show ?thesis by simp
  qed
  show ?case
  proof (cases "net reqs'")
    case (Inl e)
    with Suc.prems(1) step have "reqs = reqs'" by simp
    with Inl show ?thesis by (intro stop) simp_all
  next
    case (Inr p)
    show ?thesis
    proof (cases "ok p")
      case False
      with Inr Suc.prems(1) step have "reqs = reqs'"
        and "out = Inl (Error ''Error no fuel data or station id not found'')" by simp_all
      then show ?thesis by (intro stop) simp_all
    next
      case True
      show ?thesis
      proof (cases "station p")
        case None
        with Inr True Suc.prems(1) step have "reqs = reqs'" by simp
        with Inr True show ?thesis by (intro stop) simp_all
      next
        case (Some st)
        let ?acc = "if checkStation cfg st then acc @ [set_dist cfg st] else acc"
        from Inr True Some Suc.prems(1) step
        have rec: "getData_detail net cfg (Suc i) ?acc reqs' = (out, reqs)" by simp
        have inv: "\<forall>j < length reqs'. \<forall>r. net (take (Suc j) reqs') = Inr r \<longrightarrow> ok r"
        proof (intro allI impI)
          fix j r' assume j: "j < length reqs'" and n: "net (take (Suc j) reqs') = Inr r'"
          show "ok r'"
          proof (cases "j < length reqs0")
            case True
            with n old Suc.prems(2) show ?thesis by auto
          next
            case False
            with j len have "j = length reqs0" by simp
            with n new Inr \<open>ok p\<close> show ?thesis by simp
          qed
        qed
        from Suc.hyps(2) have "n = length (onlyStations cfg) - Suc i" by simp
        from Suc.hyps(1) [OF this rec inv Suc.prems(3,4,5)] show ?thesis .
      qed
    qed
  qed
qed

lemma area_not_ok:
  assumes "getData_area num2str net cfg = (out, reqs)"
    and "k < length reqs" and "net (take (Suc k) reqs) = Inr r" and "\<not> ok r"
  shows "out = Inl (Error ''Error no fuel data'') \<and> length reqs = Suc k"
proof -
  have reqs: "reqs = [generateUrl num2str cfg]"
    using assms(1)
    by (auto simp: getData_area_def fetch_def split: sum.splits if_splits option.splits)
  with assms(2) have k: "k = 0" by simp
  with assms(3) reqs have "net [generateUrl num2str cfg] = Inr r" by simp
  with assms(1,4) have "out = Inl (Error ''Error no fuel data'')"
    by (simp add: getData_area_def fetch_def)
  with reqs k show ?thesis by simp
qed

text \<open>The requests of a run are those for an initial segment of the identifiers, in order.\<close>

lemma detail_requests:
  assumes "getData_detail net cfg i acc reqs0 = (out, reqs)"
  shows "\<exists>m. reqs = reqs0 @ map (generateUrlDetail cfg) (take m (drop i (onlyStations cfg)))"
  using assms
proof (induction n \<equiv> "length (onlyStations cfg) - i" arbitrary: i acc reqs0)
  case 0
  then have "reqs = reqs0" by (simp add: getData_detail_done)
  then have "reqs = reqs0 @ map (generateUrlDetail cfg) (take 0 (drop i (onlyStations cfg)))"
    by simp
  then show ?case ..
next
  case (Suc n)
  then have i: "i < length (onlyStations cfg)" by simp
  define reqs' where "reqs' = reqs0 @ [generateUrlDetail cfg (onlyStations cfg ! i)]"
  note step = getData_detail_step [OF i, of net acc reqs0, folded reqs'_def, unfolded Let_def]
  have d: "drop i (onlyStations cfg) = onlyStations cfg ! i # drop (Suc i) (onlyStations cfg)"
    using i by (simp add: Cons_nth_drop_Suc)
  have one: "reqs' = reqs0 @ map (generateUrlDetail cfg) (take 1 (drop i (onlyStations cfg)))"
    unfolding d reqs'_def by simp
  show ?case
  proof (cases "reqs = reqs'")
    case True
    with one show ?thesis by blast
  next
    case False
    with Suc.prems step obtain acc' where
      rec: "getData_detail net cfg (Suc i) acc' reqs' = (out, reqs)"
      by (auto split: sum.splits if_splits option.splits)
    from Suc.hyps(2) have "n = length (onlyStations cfg) - Suc i" by simp
    from Suc.hyps(1) [OF this rec] obtain m where
      "reqs = reqs' @ map (generateUrlDetail cfg) (take m (drop (Suc i) (onlyStations cfg)))" ..
    then have
      "reqs = reqs0 @ map (generateUrlDetail cfg) (take (Suc m) (drop i (onlyStations cfg)))"
      unfolding d reqs'_def by simp
    then show ?thesis ..
  qed
qed

text \<open>
  A run that ends without error has made one request per remaining identifier, each
  answered \<^verbatim>\<open>ok\<close> with a station, and has pushed the stations the filter keeps, in that
  order, each with its \<^verbatim>\<open>dist\<close> set.
\<close>

lemma detail_success:
  assumes "getData_detail net cfg i acc reqs0 = (Inr xs, reqs)"
  shows "reqs = reqs0 @ map (generateUrlDetail cfg) (drop i (onlyStations cfg)) \<and>
         (\<exists>sts. length sts = length (onlyStations cfg) - i \<and>
            (\<forall>j < length sts. \<exists>r. net (take (length reqs0 + Suc j) reqs) = Inr r \<and> ok r \<and>
                                   station r = Some (sts ! j)) \<and>
            xs = acc @ map (set_dist cfg) (filter (checkStation cfg) sts))"
  using assms
proof (induction n \<equiv> "length (onlyStations cfg) - i" arbitrary: i acc reqs0)
  case 0
  then have "\<not> i < length (onlyStations cfg)" by simp
  with "0.prems" have "reqs = reqs0" "xs = acc" by (simp_all add: getData_detail_done)
  with "0.hyps" show ?case by simp
next
  case (Suc n)
  then have i: "i < length (onlyStations cfg)" by simp
  define reqs' where "reqs' = reqs0 @ [generateUrlDetail cfg (onlyStations cfg ! i)]"
  note step = getData_detail_step [OF i, of net acc reqs0, folded reqs'_def, unfolded Let_def]
  have d: "drop i (onlyStations cfg) = onlyStations cfg ! i # drop (Suc i) (onlyStations cfg)"
    using i by (simp add: Cons_nth_drop_Suc)
  from Suc.prems step obtain p st where
    p: "net reqs' = Inr p" "ok p" "station p = Some st" and
    rec: "getData_detail net cfg (Suc i)
            (if checkStation cfg st then acc @ [set_dist cfg st] else acc) reqs' = (Inr xs, reqs)"
    by (auto split: sum.splits if_splits option.splits)
  from Suc.hyps(2) have "n = length (onlyStations cfg) - Suc i" by simp
  from Suc.hyps(1) [OF this rec] obtain sts where
    reqs: "reqs = reqs' @ map (generateUrlDetail cfg) (drop (Suc i) (onlyStations cfg))" and
    len: "length sts = length (onlyStations cfg) - Suc i" and
    resp: "\<forall>j < length sts. \<exists>r. net (take (length reqs' + Suc j) reqs) = Inr r \<and> ok r \<and>
                                   station r = Some (sts ! j)" and
    xs: "xs = (if checkStation cfg st then acc @ [set_dist cfg st] else acc) @
              map (set_dist cfg) (filter (checkStation cfg) sts)"
    by blast
  have r1: "reqs = reqs0 @ map (generateUrlDetail cfg) (drop i (onlyStations cfg))"
    unfolding reqs d reqs'_def by simp
  have l1: "length (st # sts) = length (onlyStations cfg) - i"
    using len i by simp
  have x1: "xs = acc @ map (set_dist cfg) (filter (checkStation cfg) (st # sts))"
    unfolding xs by simp
  have first: "take (length reqs0 + Suc 0) reqs = reqs'"
    unfolding reqs by (simp add: reqs'_def)
  have a1: "\<forall>j < length (st # sts). \<exists>r. net (take (length reqs0 + Suc j) reqs) = Inr r \<and>
                                   ok r \<and> station r = Some ((st # sts) ! j)"
  proof (intro allI impI)
    fix j assume j: "j < length (st # sts)"
    show "\<exists>r. net (take (length reqs0 + Suc j) reqs) = Inr r \<and> ok r \<and>
               station r = Some ((st # sts) ! j)"
    proof (cases j)
      case 0
      with p first show ?thesis by simp
    next
      case (Suc j')
      with j have "j' < length sts" by simp
      with resp obtain r where "net (take (length reqs' + Suc j') reqs) = Inr r" "ok r"
        "station r = Some (sts ! j')" by blast
      moreover have "length reqs' + Suc j' = length reqs0 + Suc j"
        using Suc by (simp add: reqs'_def)
      ultimately show ?thesis using Suc by auto
    qed
  qed
  from r1 l1 a1 x1 show ?case by blast
qed

subsection \<open>Runs on the concrete inputs\<close>

lemma checkStation_a: "checkStation config_detail station_a"
  by (simp add: checkStation_def checkStation_from.simps example_defs)

lemma checkStation_b: "checkStation config_detail station_b"
  by (simp add: checkStation_def checkStation_from.simps example_defs)

lemma detail_mode_config_detail: "\<not> length (onlyStations config_detail) < 1"
  by (simp add: config_detail_def config_diesel_def)

lemma getData_detail_net_detail:
  "getData_detail net_detail config_detail 0 [] [] =
     (Inr [set_dist config_detail station_a, set_dist config_detail station_b],
      [generateUrlDetail config_detail ''id-a'', generateUrlDetail config_detail ''id-b''])"
proof -
  have ids: "onlyStations config_detail = [''id-a'', ''id-b'']"
    by (simp add: config_detail_def config_diesel_def)
  have "getData_detail net_detail config_detail 2
          [set_dist config_detail station_a, set_dist config_detail station_b]
          [generateUrlDetail config_detail ''id-a'', generateUrlDetail config_detail ''id-b''] =
        (Inr [set_dist config_detail station_a, set_dist config_detail station_b],
         [generateUrlDetail config_detail ''id-a'', generateUrlDetail config_detail ''id-b''])"
    by (rule getData_detail_done) (simp add: ids)
  then have "getData_detail net_detail config_detail (Suc 0) [set_dist config_detail station_a]
          [generateUrlDetail config_detail ''id-a''] =
        (Inr [set_dist config_detail station_a, set_dist config_detail station_b],
         [generateUrlDetail config_detail ''id-a'', generateUrlDetail config_detail ''id-b''])"
    by (subst getData_detail_step) (simp_all add: ids net_detail_def checkStation_b numeral_2_eq_2)
  then show ?thesis
    by (subst getData_detail_step) (simp_all add: ids net_detail_def checkStation_a)
qed

lemma getData_detail_net_fail:
  "getData_detail net_fail config_detail 0 [] [] =
     (Inl (Error ''Error no fuel data or station id not found''),
      [generateUrlDetail config_detail ''id-a'', generateUrlDetail config_detail ''id-b''])"
proof -
  have ids: "onlyStations config_detail = [''id-a'', ''id-b'']"
    by (simp add: config_detail_def config_diesel_def)
  have "getData_detail net_fail config_detail (Suc 0) [set_dist config_detail station_a]
          [generateUrlDetail config_detail ''id-a''] =
        (Inl (Error ''Error no fuel data or station id not found''),
         [generateUrlDetail config_detail ''id-a'', generateUrlDetail config_detail ''id-b''])"
    by (subst getData_detail_step) (simp_all add: ids net_fail_def)
  then show ?thesis
    by (subst getData_detail_step) (simp_all add: ids net_fail_def checkStation_a)
qed

lemma getData_net_detail:
  "getData show_zero hsort net_detail config_detail =
     (Inr (getData_result hsort config_detail
             [set_dist config_detail station_a, set_dist config_detail station_b]),
      [generateUrlDetail config_detail ''id-a'', generateUrlDetail config_detail ''id-b''])"
  using detail_mode_config_detail
  by (simp add: getData_def getData_stations_def getData_detail_net_detail)

lemma getData_net_area:
  "getData show_zero hsort net_area config_diesel =
     (Inr (getData_result hsort config_diesel [station_a, station_b]),
      [generateUrl show_zero config_diesel])"
proof -
  have "getData_area show_zero net_area config_diesel =
          (Inr [station_a, station_b], [generateUrl show_zero config_diesel])"
    by (simp add: getData_area_def fetch_def net_area_def filterStations_def
        filterStations_from.simps config_diesel_def station_a_def station_b_def
        station_zero_def station_foo_def)
  then show ?thesis
    by (simp add: getData_def getData_stations_def config_diesel_def)
qed

lemma insertion_sort_a_b:
  "insertion_sort (sortByPrice config_diesel)
     [normalizeStations station_a, normalizeStations station_b] =
   [normalizeStations station_b, normalizeStations station_a]"
  by (simp add: sortByPrice_def normalizeStations_def config_diesel_def station_a_def
      station_b_def station_foo_def)

section \<open>The normaliser\<close>

text \<open>
  Claim C1. The address is the postal code zero-padded to five digits, then the place,
  \<open>'' - ''\<close>, the street and the house number. The code prefixes one \<open>0\<close> and keeps the
  last five characters, so this holds for the postal codes of four or five digits, which
  are the ones the theorem is about.
\<close>

theorem normalizeStations_address:
  assumes "1000 \<le> postCode st" and "postCode st \<le> 99999"
  shows "address (normalizeStations st) =
           Some (zero_pad5 (postCode st) @ '' '' @ place st @ '' - '' @ street st @ '' '' @
                 houseNumber st)"
  using assms slice_pad_iff [of "postCode st"] by (simp add: normalizeStations_def)

theorem normalizeStations_address_witness:
  "1000 \<le> postCode station_dresden \<and> postCode station_dresden \<le> 99999 \<and>
   address (normalizeStations station_dresden) = Some ''01067 Dresden - Bar 4''"
proof -
  have h1: "1000 \<le> postCode station_dresden" by (simp add: station_dresden_def)
  have h2: "postCode station_dresden \<le> 99999" by (simp add: station_dresden_def)
  have "zero_pad5 (postCode station_dresden) = ''01067''"
    by (simp add: zero_pad5_def station_dresden_def dec_string.simps digit_def)
  with normalizeStations_address [OF h1 h2] h1 h2 show ?thesis
    by (simp add: station_dresden_def station_foo_def)
qed

text \<open>
  The example of the claim itself: postal code 123 comes out with four characters, not as
  the five-digit \<open>00123\<close>.
\<close>

theorem normalizeStations_address_123:
  "postCode station_foo = 123 \<and> place station_foo = ''Foo'' \<and> street station_foo = ''Bar'' \<and>
   houseNumber station_foo = ''4'' \<and> zero_pad5 123 = ''00123'' \<and>
   address (normalizeStations station_foo) = Some ''0123 Foo - Bar 4'' \<and>
   address (normalizeStations station_foo) \<noteq> Some ''00123 Foo - Bar 4''"
  by (simp add: normalizeStations_def station_foo_def slice_neg_def zero_pad5_def
      dec_string.simps digit_def numeral_2_eq_2)

section \<open>The station filter\<close>

text \<open>
  Claim C2. The filter returns false exactly when some required fuel type has a price of
  at most zero, or only open stations are wanted and the station is not open. Evaluated
  here on a closed station, with only open stations wanted and no required type: the
  loop body never runs, the filter keeps the station, and the predicate of the claim
  drops it.
\<close>

theorem filterStations_keeps_closed:
  "types config_no_types = [] \<and> showOpenOnly config_no_types \<and> \<not> isOpen station_foo \<and>
   filterStations config_no_types station_foo \<and> \<not> keep_spec config_no_types station_foo"
  by (simp add: filterStations_def filterStations_from.simps keep_spec_def
      config_no_types_def config_diesel_def station_foo_def)

text \<open>
  The two loops, \<^verbatim>\<open>filterStations\<close> of area mode and \<^verbatim>\<open>checkStation\<close> of detail mode,
  return the same boolean for every station and configuration.
\<close>

lemma checkStation_filterStations: "checkStation cfg st = filterStations cfg st"
  by (simp add: checkStation_def filterStations_def checkStation_from_eq)

text \<open>
  Claim C9. \<^verbatim>\<open>filterStations\<close> and \<^verbatim>\<open>checkStation\<close> are extensionally equal, so that both
  refine the one Station Filter of the specification. Evaluated here on the closed station
  with only open stations wanted and no required type: the two functions agree, both keep
  the station, and the Station Filter drops it.
\<close>

theorem filters_agree_but_keep_closed:
  "checkStation config_no_types station_foo = filterStations config_no_types station_foo \<and>
   checkStation config_no_types station_foo \<and>
   showOpenOnly config_no_types \<and> \<not> isOpen station_foo \<and>
   checkStation config_no_types station_foo \<noteq> keep_spec config_no_types station_foo"
  by (simp add: checkStation_def checkStation_from.simps filterStations_def
      filterStations_from.simps keep_spec_def config_no_types_def config_diesel_def
      station_foo_def)

text \<open>With at least one required type both functions are the Station Filter.\<close>

lemma filters_refine_keep_spec:
  assumes "types cfg \<noteq> []"
  shows "filterStations cfg st = keep_spec cfg st" and "checkStation cfg st = keep_spec cfg st"
  using assms by (simp_all add: checkStation_filterStations filterStations_iff)

text \<open>
  Claim C10. When the list of required fuel types is empty, both filters keep every
  station, whatever its prices, also a closed one when only open stations are wanted; the
  filtered list of area mode is then the whole list.
\<close>

theorem filter_empty_types:
  assumes "types cfg = []"
  shows "filterStations cfg st \<and> checkStation cfg st \<and> filter (filterStations cfg) sts = sts"
  using assms
  by (simp add: checkStation_def filterStations_def checkStation_from.simps
      filterStations_from.simps)

theorem filter_empty_types_witness:
  "types config_no_types = [] \<and> showOpenOnly config_no_types \<and>
   \<not> isOpen station_closed_zero \<and> diesel station_closed_zero = 0 \<and>
   filterStations config_no_types station_closed_zero \<and>
   checkStation config_no_types station_closed_zero \<and>
   filter (filterStations config_no_types) [station_closed_zero] = [station_closed_zero]"
proof -
  have h: "types config_no_types = []"
    by (simp add: config_no_types_def config_diesel_def)
  from filter_empty_types [OF h, of station_closed_zero "[station_closed_zero]"] h
  show ?thesis by (simp add: example_defs)
qed

section \<open>The price comparator\<close>

text \<open>
  Claim C4. With the prices of \<open>a\<close> and \<open>b\<close> on the configured sort field: when the price
  of \<open>b\<close> is zero the comparator's result is negative (\<open>a\<close> sorts before \<open>b\<close>); when the
  price of \<open>a\<close> is zero and that of \<open>b\<close> is not, it is positive (\<open>b\<close> sorts before \<open>a\<close>);
  otherwise it is the price of \<open>a\<close> minus the price of \<open>b\<close>.
\<close>

theorem sortByPrice_cases:
  "(get_price b (sortBy cfg) = 0 \<longrightarrow> sortByPrice cfg a b < 0) \<and>
   (get_price a (sortBy cfg) = 0 \<and> get_price b (sortBy cfg) \<noteq> 0 \<longrightarrow> 0 < sortByPrice cfg a b) \<and>
   (get_price a (sortBy cfg) \<noteq> 0 \<and> get_price b (sortBy cfg) \<noteq> 0 \<longrightarrow>
      sortByPrice cfg a b = get_price a (sortBy cfg) - get_price b (sortBy cfg))"
  by (simp add: sortByPrice_def MIN_SAFE_INTEGER_def MAX_SAFE_INTEGER_def)

theorem sortByPrice_cases_witness:
  "get_price station_zero (sortBy config_diesel) = 0 \<and>
   get_price station_a (sortBy config_diesel) = 3 / 2 \<and>
   get_price station_b (sortBy config_diesel) = 6 / 5 \<and>
   sortByPrice config_diesel station_a station_zero < 0 \<and>
   0 < sortByPrice config_diesel station_zero station_a \<and>
   sortByPrice config_diesel station_a station_b = 3 / 10"
proof -
  have p: "get_price station_zero (sortBy config_diesel) = 0"
    "get_price station_a (sortBy config_diesel) = 3 / 2"
    "get_price station_b (sortBy config_diesel) = 6 / 5"
    by (simp_all add: example_defs)
  from sortByPrice_cases [of station_zero config_diesel station_a]
    sortByPrice_cases [of station_a config_diesel station_zero]
    sortByPrice_cases [of station_b config_diesel station_a] p
  show ?thesis by simp
qed

section \<open>The pipeline\<close>

text \<open>
  Whatever the host's sort does to the copy, \<open>byDistance\<close> is the list of the retained
  stations, normalised, in the order in which the mode produced them.
\<close>

lemma byDistance_any_sort:
  assumes "getData num2str hsort net cfg = (Inr res, reqs)"
  shows "\<exists>sts. getData_stations num2str net cfg = (Inr sts, reqs) \<and>
               byDistance res = map normalizeStations sts"
  using assms by (auto simp: getData_Inr byDistance_getData_result)

text \<open>
  Claim C5. On every successful call, \<open>byPrice\<close> is a permutation of \<open>byDistance\<close> with the
  same stations, field for field (the two lists are equal as multisets of station
  records); \<open>byPrice\<close> is what the host's sort made of the copy, and \<open>byDistance\<close> is still
  the list of the retained stations, normalised, in the order in which the mode produced
  them. The host's sort enters with the one property that it rearranges the list it is
  given; nothing is assumed about the order it produces.
\<close>

theorem byPrice_permutes_byDistance:
  assumes "\<forall>xs. mset (hsort (sortByPrice cfg) xs) = mset xs"
    and "getData num2str hsort net cfg = (Inr res, reqs)"
  shows "mset (byPrice res) = mset (byDistance res) \<and>
         (\<exists>sts. getData_stations num2str net cfg = (Inr sts, reqs) \<and>
                byDistance res = map normalizeStations sts \<and>
                byPrice res = hsort (sortByPrice cfg) (byDistance res))"
proof -
  from assms(2) obtain sts where
    s: "getData_stations num2str net cfg = (Inr sts, reqs)"
    and r: "res = getData_result hsort cfg sts"
    by (auto simp: getData_Inr)
  have p: "byPrice res = hsort (sortByPrice cfg) (byDistance res)"
    unfolding r byPrice_getData_result byDistance_getData_result ..
  have "mset (byPrice res) = mset (byDistance res)"
    unfolding p using assms(1) by simp
  with p show ?thesis using s r byDistance_getData_result by blast
qed

theorem byPrice_permutes_byDistance_witness:
  "(\<forall>xs. mset (insertion_sort (sortByPrice config_diesel) xs) = mset xs) \<and>
   getData show_zero insertion_sort net_area config_diesel =
     (Inr (getData_result insertion_sort config_diesel [station_a, station_b]),
      [generateUrl show_zero config_diesel]) \<and>
   mset (byPrice (getData_result insertion_sort config_diesel [station_a, station_b])) =
     mset (byDistance (getData_result insertion_sort config_diesel [station_a, station_b])) \<and>
   byDistance (getData_result insertion_sort config_diesel [station_a, station_b]) =
     [normalizeStations station_a, normalizeStations station_b] \<and>
   byPrice (getData_result insertion_sort config_diesel [station_a, station_b]) =
     [normalizeStations station_b, normalizeStations station_a]"
proof -
  let ?res = "getData_result insertion_sort config_diesel [station_a, station_b]"
  have h: "\<forall>xs. mset (insertion_sort (sortByPrice config_diesel) xs) = mset xs"
    by (simp add: mset_insertion_sort)
  have d: "byDistance ?res = [normalizeStations station_a, normalizeStations station_b]"
    by (simp add: byDistance_getData_result)
  from byPrice_permutes_byDistance
    [of insertion_sort config_diesel, OF h getData_net_area [of insertion_sort]]
  have m: "mset (byPrice ?res) = mset (byDistance ?res)"
    and "byPrice ?res = insertion_sort (sortByPrice config_diesel) (byDistance ?res)"
    by auto
  then have p: "byPrice ?res = [normalizeStations station_b, normalizeStations station_a]"
    by (simp only: d insertion_sort_a_b)
  from h getData_net_area [of insertion_sort] m d p show ?thesis by blast
qed

text \<open>
  Claim C6. When the answer to any request of a call has an \<^verbatim>\<open>ok\<close> that is not true, the
  call ends right there (that request is the last one of the log) with the error message
  of its mode, and so without a result, however many stations were retained before.
  The \<open>k\<close>-th request of the log \<open>reqs\<close> was answered with \<open>net (take (Suc k) reqs)\<close>.
\<close>

theorem getData_not_ok_aborts:
  assumes "getData num2str hsort net cfg = (out, reqs)"
    and "k < length reqs" and "net (take (Suc k) reqs) = Inr r" and "\<not> ok r"
  shows "out = Inl (Error (if length (onlyStations cfg) < 1 then ''Error no fuel data''
                           else ''Error no fuel data or station id not found'')) \<and>
         length reqs = Suc k"
proof -
  from assms(1) obtain out' where s: "getData_stations num2str net cfg = (out', reqs)"
    and o: "out = map_sum id (getData_result hsort cfg) out'"
    by (rule getData_map_sum)
  have "out' = Inl (Error (if length (onlyStations cfg) < 1 then ''Error no fuel data''
                           else ''Error no fuel data or station id not found'')) \<and>
        length reqs = Suc k"
  proof (cases "length (onlyStations cfg) < 1")
    case True
    with s have "getData_area num2str net cfg = (out', reqs)"
      by (simp add: getData_stations_def)
    from area_not_ok [OF this assms(2,3,4)] True show ?thesis by simp
  next
    case False
    with s have "getData_detail net cfg 0 [] [] = (out', reqs)"
      by (simp add: getData_stations_def)
    from detail_not_ok [OF this _ assms(2,3,4)] False show ?thesis by simp
  qed
  with o show ?thesis by simp
qed

theorem getData_not_ok_aborts_witness:
  "getData show_zero insertion_sort net_fail config_detail =
     (Inl (Error ''Error no fuel data or station id not found''),
      [generateUrlDetail config_detail ''id-a'', generateUrlDetail config_detail ''id-b'']) \<and>
   (1::nat) < length [generateUrlDetail config_detail ''id-a'',
                      generateUrlDetail config_detail ''id-b''] \<and>
   net_fail (take (Suc 1) [generateUrlDetail config_detail ''id-a'',
                           generateUrlDetail config_detail ''id-b'']) =
     Inr \<lparr>ok = False, stations = None, station = None\<rparr> \<and>
   \<not> ok \<lparr>ok = False, stations = None, station = None\<rparr> \<and>
   \<not> length (onlyStations config_detail) < 1"
proof -
  let ?reqs = "[generateUrlDetail config_detail ''id-a'', generateUrlDetail config_detail ''id-b'']"
  let ?r = "\<lparr>ok = False, stations = None, station = None\<rparr>"
  have h2: "(1::nat) < length ?reqs" by simp
  have h3: "net_fail (take (Suc 1) ?reqs) = Inr ?r" by (simp add: net_fail_def)
  have h4: "\<not> ok ?r" by simp
  note m = detail_mode_config_detail
  obtain out reqs where g: "getData show_zero insertion_sort net_fail config_detail = (out, reqs)"
    by (cases "getData show_zero insertion_sort net_fail config_detail")
  then have reqs: "reqs = ?reqs"
    using m by (simp add: getData_def getData_stations_def getData_detail_net_fail)
  from getData_not_ok_aborts [OF g [unfolded reqs] h2 h3 h4] g reqs m h2 h3 h4
  show ?thesis by simp
qed

text \<open>
  Claim C7. In detail mode the requests are made one per configured identifier, in the
  order of the list (the log is an initial segment of the list of detail URLs, and the
  whole list when the call succeeds); and \<open>byDistance\<close> holds, in that same order, the
  stations of the answers that the filter keeps.
\<close>

theorem detail_mode_order:
  assumes "\<not> length (onlyStations cfg) < 1"
    and "getData num2str hsort net cfg = (out, reqs)"
  shows "prefix reqs (map (generateUrlDetail cfg) (onlyStations cfg)) \<and>
         (\<forall>res. out = Inr res \<longrightarrow>
            reqs = map (generateUrlDetail cfg) (onlyStations cfg) \<and>
            (\<exists>sts. length sts = length (onlyStations cfg) \<and>
               (\<forall>j < length sts. \<exists>r. net (take (Suc j) reqs) = Inr r \<and> ok r \<and>
                                      station r = Some (sts ! j)) \<and>
               byDistance res =
                 map (normalizeStations \<circ> set_dist cfg) (filter (checkStation cfg) sts)))"
proof -
  from assms(2) obtain out' where "getData_stations num2str net cfg = (out', reqs)"
    and o: "out = map_sum id (getData_result hsort cfg) out'"
    by (rule getData_map_sum)
  with assms(1) have s: "getData_detail net cfg 0 [] [] = (out', reqs)"
    by (simp add: getData_stations_def)
  from detail_requests [OF s] obtain m where
    "reqs = map (generateUrlDetail cfg) (take m (onlyStations cfg))" by auto
  then have "reqs = take m (map (generateUrlDetail cfg) (onlyStations cfg))"
    by (simp add: take_map)
  then have pre: "prefix reqs (map (generateUrlDetail cfg) (onlyStations cfg))"
    by (simp add: take_is_prefix)
  have "reqs = map (generateUrlDetail cfg) (onlyStations cfg) \<and>
        (\<exists>sts. length sts = length (onlyStations cfg) \<and>
           (\<forall>j < length sts. \<exists>r. net (take (Suc j) reqs) = Inr r \<and> ok r \<and>
                                  station r = Some (sts ! j)) \<and>
           byDistance res =
             map (normalizeStations \<circ> set_dist cfg) (filter (checkStation cfg) sts))"
    if "out = Inr res" for res
  proof -
    from that o obtain xs where x: "out' = Inr xs" and r: "res = getData_result hsort cfg xs"
      by (cases out') auto
    from detail_success [OF s [unfolded x]] obtain sts where
      "reqs = map (generateUrlDetail cfg) (onlyStations cfg)"
      "length sts = length (onlyStations cfg)"
      "\<forall>j < length sts. \<exists>r. net (take (Suc j) reqs) = Inr r \<and> ok r \<and>
                             station r = Some (sts ! j)"
      "xs = map (set_dist cfg) (filter (checkStation cfg) sts)"
      by auto
    with r show ?thesis
      by (auto simp: byDistance_getData_result)
  qed
  with pre show ?thesis by blast
qed

theorem detail_mode_order_witness:
  "\<not> length (onlyStations config_detail) < 1 \<and>
   getData show_zero insertion_sort net_detail config_detail =
     (Inr (getData_result insertion_sort config_detail
             [set_dist config_detail station_a, set_dist config_detail station_b]),
      [generateUrlDetail config_detail ''id-a'', generateUrlDetail config_detail ''id-b'']) \<and>
   prefix [generateUrlDetail config_detail ''id-a'', generateUrlDetail config_detail ''id-b'']
     (map (generateUrlDetail config_detail) (onlyStations config_detail)) \<and>
   [generateUrlDetail config_detail ''id-a'', generateUrlDetail config_detail ''id-b''] =
     map (generateUrlDetail config_detail) (onlyStations config_detail) \<and>
   map ident (byDistance (getData_result insertion_sort config_detail
     [set_dist config_detail station_a, set_dist config_detail station_b])) = [''id-a'', ''id-b'']"
proof -
  have "map ident (byDistance (getData_result insertion_sort config_detail
     [set_dist config_detail station_a, set_dist config_detail station_b])) = [''id-a'', ''id-b'']"
    by (simp add: byDistance_getData_result normalizeStations_def set_dist_def station_a_def
        station_b_def)
  with detail_mode_order [OF detail_mode_config_detail getData_net_detail]
    detail_mode_config_detail getData_net_detail
  show ?thesis by blast
qed

text \<open>
  Claim C3. In detail mode every station of the result carries a numeric \<open>distance\<close>: the
  great-circle distance from the configured origin in kilometres, rounded to one decimal
  place. Evaluated here on a call for two stations at the origin, with any host sort: each
  \<open>distance\<close> is the string \<^verbatim>\<open>"0.0"\<close> that \<^verbatim>\<open>toFixed(1)\<close> returns, not a number.
\<close>

theorem detail_distance_is_string:
  "map_sum id (map distance \<circ> byDistance)
     (fst (getData show_zero hsort net_detail config_detail)) =
   Inr [JStr ''0.0'', JStr ''0.0'']"
proof -
  have a: "distance (normalizeStations (set_dist config_detail station_a)) = JStr ''0.0''"
    by (simp add: normalizeStations_def set_dist_def getDistance_same toFixed1_def
        dec_string.simps digit_def example_defs)
  have b: "distance (normalizeStations (set_dist config_detail station_b)) = JStr ''0.0''"
    by (simp add: normalizeStations_def set_dist_def getDistance_same toFixed1_def
        dec_string.simps digit_def example_defs)
  show ?thesis
    by (simp add: getData_net_detail byDistance_getData_result a b)
qed

text \<open>
  The same for every successful call in detail mode: the \<open>distance\<close> of each station of
  \<open>byDistance\<close> is the string that renders its distance from the origin with one decimal.
\<close>

lemma detail_distance_rendering:
  assumes "\<not> length (onlyStations cfg) < 1"
    and "getData num2str hsort net cfg = (Inr res, reqs)"
    and "s \<in> set (byDistance res)"
  shows "distance s = JStr (toFixed1 (getDistance s \<lparr>lat = lat cfg, lng = lng cfg\<rparr>))"
proof -
  obtain xs where s: "getData_detail net cfg 0 [] [] = (Inr xs, reqs)"
    and r: "res = getData_result hsort cfg xs"
    using assms(1,2)
    by (auto simp: getData_def getData_stations_def split: prod.splits sum.splits)
  from detail_success [OF s] obtain sts where
    "xs = map (set_dist cfg) (filter (checkStation cfg) sts)" by auto
  with assms(3) r obtain st where "s = normalizeStations (set_dist cfg st)"
    by (auto simp: byDistance_getData_result)
  then show ?thesis
    by (simp add: normalizeStations_def set_dist_def getDistance_def)
qed

end
